theory Spec2Isabelle
  imports Main
begin

section \<open>Strings\<close>

text \<open>
  A JavaScript string is a sequence of UTF-16 code units. It is modelled as an Isabelle
  \<^typ>\<open>string\<close>, one \<^typ>\<open>char\<close> standing for one code unit in the range 0..255, so
  \<open>length\<close> is the \<open>.length\<close> of the source. The library functions the source calls
  (\<open>trim\<close>, \<open>toLowerCase\<close>, the three regular expressions) are written out on that range.
\<close>

definition dquote :: char where
  "dquote = CHR 0x22"

text \<open>
  \<open>String.prototype.trim\<close> removes white space and line terminators from both ends:
  tab, line feed, vertical tab, form feed, carriage return, space and no-break space.
\<close>

definition is_space :: "char \<Rightarrow> bool" where
  "is_space c =
     (c \<in> set [CHR 0x09, CHR 0x0A, CHR 0x0B, CHR 0x0C, CHR 0x0D, CHR 0x20, CHR 0xA0])"

definition trim :: "string \<Rightarrow> string" where
  "trim t = rev (dropWhile is_space (rev (dropWhile is_space t)))"

text \<open>\<open>/^\d+$/.test(text)\<close>: one or more characters, each of them a digit 0..9.\<close>

definition is_digit :: "char \<Rightarrow> bool" where
  "is_digit c = (48 \<le> (of_char c :: nat) \<and> (of_char c :: nat) \<le> 57)"

definition all_digits :: "string \<Rightarrow> bool" where
  "all_digits t = (t \<noteq> [] \<and> list_all is_digit t)"

text \<open>
  \<open>toLowerCase\<close>: the letters A..Z, and the capital letters of the upper half of the range
  (0xC0..0xDE but the multiplication sign 0xD7), move up by 32.
\<close>

definition toLowerCase_char :: "char \<Rightarrow> char" where
  "toLowerCase_char c =
     (let k = (of_char c :: nat)
      in if (65 \<le> k \<and> k \<le> 90) \<or> (192 \<le> k \<and> k \<le> 222 \<and> k \<noteq> 215)
         then char_of (k + 32) else c)"

definition toLowerCase :: "string \<Rightarrow> string" where
  "toLowerCase t = map toLowerCase_char t"

text \<open>
  \<open>/^(http|www\.|@)/i.test(text)\<close>. Under the flag \<open>i\<close> a character of the text matches
  a letter of the pattern when it is that letter in either case; only the letters A..Z have
  a counterpart, so the comparison folds these alone.
\<close>

definition fold_case :: "char \<Rightarrow> char" where
  "fold_case c =
     (let k = (of_char c :: nat) in if 65 \<le> k \<and> k \<le> 90 then char_of (k + 32) else c)"

definition starts_with_ci :: "string \<Rightarrow> string \<Rightarrow> bool" where
  "starts_with_ci pat t = (map fold_case (take (length pat) t) = pat)"

definition url_like :: "string \<Rightarrow> bool" where
  "url_like t = (starts_with_ci ''http'' t \<or> starts_with_ci ''www.'' t \<or> starts_with_ci ''@'' t)"

text \<open>
  \<open>translated.replace(/^"|"$/g, '')\<close>: a double quote at the very start is removed, and
  a double quote at the very end of what is left.
\<close>

definition strip_quotes :: "string \<Rightarrow> string" where
  "strip_quotes t =
     (let t1 = (if t \<noteq> [] \<and> hd t = dquote then tl t else t)
      in if t1 \<noteq> [] \<and> last t1 = dquote then butlast t1 else t1)"

section \<open>The page, the translator and the browser\<close>

text \<open>
  A text node is an object with an identity; its \<open>textContent\<close> lives in a store indexed
  by that identity. The tree under \<open>document.body\<close> holds text nodes and elements (tag name,
  attribute names, children); other node kinds are invisible to a walker that shows text only.
\<close>

type_synonym node = nat

datatype dom_node =
    Text node
  | Element string "string list" "dom_node list"

text \<open>
  A TextRecord. The source's \<open>id\<close> is the string \<open>text_<index>\<close>; the record keeps the index.
\<close>

record text_record =
  id_index :: nat
  original :: string
  parentTag :: string

text \<open>
  What \<open>fetch\<close> and \<open>response.json()\<close> can produce, as far as the source looks at it:
  \<^item> the \<open>translatedText\<close> field is missing or falsy, a string, or a truthy value that is
    not a string (on which \<open>.replace\<close> is not a function);
  \<^item> the body does not parse (or parses to \<open>null\<close>, whose fields cannot be read), or it is
    an object with a \<open>responseStatus\<close> (a number, when it is one) and that field;
  \<^item> \<open>fetch\<close> throws, or resolves to a response with an HTTP status and a body.
\<close>

datatype translated_field = Absent | Str string | NonString

datatype http_body =
    Unreadable
  | Json "int option" translated_field

datatype fetch_result =
    FetchThrows
  | Response nat http_body

datatype exn = NetworkError | ApiError nat | JsonError | TypeError

text \<open>What a run does to the outside, in order: storage accesses, requests, pauses, console lines.\<close>

datatype event =
    StorageGet string
  | StorageSet string string
  | Fetch string string
  | Timeout nat
  | LogFound nat
  | LogSuccess string
  | WarnIssue string
  | WarnFailed string exn
  | ErrorFailed exn

text \<open>
  The network answers a request for a text and a language; its answer may depend on all
  that happened before.
\<close>

type_synonym network = "event list \<Rightarrow> string \<Rightarrow> string \<Rightarrow> fetch_result"

text \<open>
  The state: the four fields of the \<open>Translator\<close> (the \<open>Map\<close> \<open>originalTexts\<close> as an
  association list in insertion order), and what the source reads and writes of the browser:
  the tree under \<open>document.body\<close> and the attributes of the \<open>html\<close> element above it, the
  text of every text node, \<open>localStorage\<close>, the two optional elements \<open>setLoading\<close>
  touches (\<open>None\<close> when the page has no such element), the \<open>lang\<close> of the document
  element, and the events so far.
\<close>

record state =
  originalTexts :: "(node \<times> text_record) list"
  cache :: "string \<rightharpoonup> string"
  currentLang :: string
  isTranslating :: bool
  body :: dom_node
  htmlAttrs :: "string list"
  textContent :: "node \<Rightarrow> string"
  localStorage :: "string \<rightharpoonup> string"
  loadingDisplay :: "string option"
  selectDisabled :: "bool option"
  documentLang :: string
  events :: "event list"

definition skipSelectors :: "string list" where
  "skipSelectors = [''script'', ''style'', ''noscript'', ''iframe'', ''canvas'', ''svg'']"

section \<open>extractText\<close>

text \<open>
  \<open>acceptNode\<close>, given the chain of elements above the text node (nearest first, each with
  its tag name and attribute names). \<open>parent.closest('[data-no-translate]')\<close> looks at the
  parent and every element above it.
\<close>

definition acceptNode :: "(node \<Rightarrow> string) \<Rightarrow> (string \<times> string list) list \<Rightarrow> node \<Rightarrow> bool" where
  "acceptNode tc anc n =
     (case anc of
        [] \<Rightarrow> False
      | (ptag, pattrs) # higher \<Rightarrow>
          if toLowerCase ptag = ''option'' then False
          else if list_ex (\<lambda>(tag, attrs). ''data-no-translate'' \<in> set attrs) anc then False
          else
            let t = trim (tc n)
            in if t = [] \<or> length t < 2 then False
               else if all_digits t then False
               else if url_like t then False
               else True)"

text \<open>
  The tree walker shows text nodes only, in document order; each accepted node comes with the
  tag name of its parent element. Its root is \<open>document.body\<close>, an element, which the
  walker does not return; above it is the \<open>html\<close> element.
\<close>

fun walk :: "(node \<Rightarrow> string) \<Rightarrow> (string \<times> string list) list \<Rightarrow> dom_node \<Rightarrow> (node \<times> string) list" where
  "walk tc anc (Text n) = (if acceptNode tc anc n then [(n, fst (hd anc))] else [])"
| "walk tc anc (Element tag attrs kids) = concat (map (walk tc ((tag, attrs) # anc)) kids)"

definition walker_nodes :: "state \<Rightarrow> (node \<times> string) list" where
  "walker_nodes s =
     (case body s of
        Text n \<Rightarrow> []
      | Element tag attrs kids \<Rightarrow>
          concat (map (walk (textContent s) [(tag, attrs), (''HTML'', htmlAttrs s)]) kids))"

text \<open>The \<open>forEach\<close> over the accepted nodes, \<open>index\<close> counting from 0.\<close>

fun record_nodes ::
  "(node \<Rightarrow> string) \<Rightarrow> (node \<times> string) list \<Rightarrow> nat \<Rightarrow> (node \<times> text_record) list \<Rightarrow> (node \<times> text_record) list" where
  "record_nodes tc [] index m = m"
| "record_nodes tc ((n, ptag) # rest) index m =
     (let t = trim (tc n);
          m' = (if t \<noteq> [] \<and> n \<notin> set (map fst m)
                then m @ [(n, \<lparr>id_index = index, original = t, parentTag = toLowerCase ptag\<rparr>)]
                else m)
      in record_nodes tc rest (Suc index) m')"

definition extractText :: "state \<Rightarrow> state" where
  "extractText s =
     (let m = record_nodes (textContent s) (walker_nodes s) 0 (originalTexts s)
      in s\<lparr>originalTexts := m, events := events s @ [LogFound (length m)]\<rparr>)"

section \<open>setLoading\<close>

definition setLoading :: "bool \<Rightarrow> state \<Rightarrow> state" where
  "setLoading show s =
     s\<lparr>loadingDisplay := map_option (\<lambda>d. if show then ''block'' else ''none'') (loadingDisplay s),
       selectDisabled := map_option (\<lambda>d. show) (selectDisabled s)\<rparr>"

section \<open>getCachedTranslation\<close>

definition cacheKey :: "string \<Rightarrow> string \<Rightarrow> string" where
  "cacheKey t targetLang = t @ ''_'' @ targetLang"

definition localStorageKey :: "string \<Rightarrow> string" where
  "localStorageKey k = ''translation_'' @ k"

text \<open>
  An \<open>async\<close> function runs up to its first \<open>await\<close> when it is called. For
  \<open>getCachedTranslation\<close> that part is the two cache look-ups and, when both miss, the
  call of \<open>fetch\<close>: it ends with a value (a hit) or with a request under way.
  \<open>if (cached)\<close> takes a stored empty string for a miss.
\<close>

datatype lookup = Hit string | Awaiting fetch_result

definition getCachedTranslation_start :: "network \<Rightarrow> string \<Rightarrow> string \<Rightarrow> state \<Rightarrow> lookup \<times> state" where
  "getCachedTranslation_start net t targetLang s =
     (case cache s (cacheKey t targetLang) of
        Some v \<Rightarrow> (Hit v, s)
      | None \<Rightarrow>
          let s1 = s\<lparr>events := events s @ [StorageGet (localStorageKey (cacheKey t targetLang))]\<rparr>
          in case localStorage s (localStorageKey (cacheKey t targetLang)) of
               Some (c # cs) \<Rightarrow>
                 (Hit (c # cs), s1\<lparr>cache := (cache s1)(cacheKey t targetLang \<mapsto> c # cs)\<rparr>)
             | _ \<Rightarrow>
                 (Awaiting (net (events s1) t targetLang),
                  s1\<lparr>events := events s1 @ [Fetch t targetLang]\<rparr>))"

text \<open>
  The rest of the \<open>try\<close> block, once the request has an outcome: every failure logs a
  warning and returns the text it was given; a success normalises the translation, writes it
  to both tiers and returns it.
\<close>

definition warn_failed :: "string \<Rightarrow> exn \<Rightarrow> state \<Rightarrow> string \<times> state" where
  "warn_failed t e s = (t, s\<lparr>events := events s @ [WarnFailed t e]\<rparr>)"

definition getCachedTranslation_finish :: "string \<Rightarrow> string \<Rightarrow> fetch_result \<Rightarrow> state \<Rightarrow> string \<times> state" where
  "getCachedTranslation_finish t targetLang r s =
     (case r of
        FetchThrows \<Rightarrow> warn_failed t NetworkError s
      | Response status b \<Rightarrow>
          if status < 200 \<or> 299 < status then warn_failed t (ApiError status) s
          else
            case b of
              Unreadable \<Rightarrow> warn_failed t JsonError s
            | Json responseStatus field \<Rightarrow>
                if responseStatus = Some 200 \<and> field \<noteq> Absent \<and> field \<noteq> Str []
                then
                  case field of
                    Str translatedText \<Rightarrow>
                      let translated = trim (strip_quotes translatedText);
                          s1 = s\<lparr>cache := (cache s)(cacheKey t targetLang \<mapsto> translated)\<rparr>;
                          s2 = s1\<lparr>localStorage :=
                                    (localStorage s1)(localStorageKey (cacheKey t targetLang) \<mapsto> translated),
                                  events := events s1 @
                                    [StorageSet (localStorageKey (cacheKey t targetLang)) translated]\<rparr>
                      in (translated, s2)
                  | _ \<Rightarrow> warn_failed t TypeError s
                else (t, s\<lparr>events := events s @ [WarnIssue t]\<rparr>))"

text \<open>A call that is awaited on its own runs both parts, one after the other.\<close>

definition getCachedTranslation :: "network \<Rightarrow> string \<Rightarrow> string \<Rightarrow> state \<Rightarrow> string \<times> state" where
  "getCachedTranslation net t targetLang s =
     (case getCachedTranslation_start net t targetLang s of
        (Hit v, s1) \<Rightarrow> (v, s1)
      | (Awaiting r, s1) \<Rightarrow> getCachedTranslation_finish t targetLang r s1)"

section \<open>translateToLanguage\<close>

definition batchSize :: nat where
  "batchSize = 8"

text \<open>
  \<open>Array.from(this.originalTexts.keys())\<close> followed by \<open>this.originalTexts.get(node)\<close>
  for each of these keys is the list of the entries of the \<open>Map\<close>, in insertion order.

  \<open>Promise.all(batch.map(async (node) => ...))\<close> calls the callback on every node of the
  batch before any of them resumes: each call runs up to the \<open>await\<close> inside
  \<open>getCachedTranslation\<close>, so all look-ups of a batch, and all its requests, come first.
  Then every callback resumes with its translation and writes it to its node unless it is
  empty or equal to the recorded original. Which response arrives first is up to the
  network; here the callbacks resume in the order of the batch. Their writes go to distinct
  nodes, and to one cache key only when two nodes of a batch share their text.
\<close>

type_synonym task = "node \<times> text_record \<times> lookup"

fun start_batch :: "network \<Rightarrow> string \<Rightarrow> (node \<times> text_record) list \<Rightarrow> state \<Rightarrow> task list \<times> state" where
  "start_batch net targetLang [] s = ([], s)"
| "start_batch net targetLang ((n, data) # rest) s =
     (let (l, s1) = getCachedTranslation_start net (original data) targetLang s;
          (ts, s2) = start_batch net targetLang rest s1
      in ((n, data, l) # ts, s2))"

definition apply_translation :: "node \<Rightarrow> text_record \<Rightarrow> string \<Rightarrow> state \<Rightarrow> state" where
  "apply_translation n data translated s =
     (if translated \<noteq> [] \<and> translated \<noteq> original data
      then s\<lparr>textContent := (textContent s)(n := translated)\<rparr>
      else s)"

definition finish_task :: "string \<Rightarrow> task \<Rightarrow> state \<Rightarrow> state" where
  "finish_task targetLang tk s =
     (case tk of
        (n, data, Hit v) \<Rightarrow> apply_translation n data v s
      | (n, data, Awaiting r) \<Rightarrow>
          (let (translated, s1) = getCachedTranslation_finish (original data) targetLang r s
           in apply_translation n data translated s1))"

fun finish_batch :: "string \<Rightarrow> task list \<Rightarrow> state \<Rightarrow> state" where
  "finish_batch targetLang [] s = s"
| "finish_batch targetLang (tk # ts) s = finish_batch targetLang ts (finish_task targetLang tk s)"

definition run_batch :: "network \<Rightarrow> string \<Rightarrow> (node \<times> text_record) list \<Rightarrow> state \<Rightarrow> state" where
  "run_batch net targetLang batch s =
     (let (ts, s1) = start_batch net targetLang batch s in finish_batch targetLang ts s1)"

definition pause :: "nat \<Rightarrow> state \<Rightarrow> state" where
  "pause ms s = s\<lparr>events := events s @ [Timeout ms]\<rparr>"

text \<open>The \<open>for\<close> loop over \<open>i\<close>; \<open>nodes.slice(i, i + batchSize)\<close> is \<open>take\<close> after \<open>drop\<close>.\<close>

function translate_loop :: "network \<Rightarrow> string \<Rightarrow> (node \<times> text_record) list \<Rightarrow> nat \<Rightarrow> state \<Rightarrow> state" where
  "translate_loop net targetLang nodes i s =
     (if i < length nodes
      then
        let batch = take batchSize (drop i nodes);
            s1 = run_batch net targetLang batch s;
            s2 = (if i + batchSize < length nodes then pause 300 s1 else s1)
        in translate_loop net targetLang nodes (i + batchSize) s2
      else s)"
  by pat_completeness auto
termination
  by (relation "measure (\<lambda>(net, targetLang, nodes, i, s). length nodes - i)")
     (auto simp: batchSize_def)

declare translate_loop.simps [simp del]

definition translateToLanguage :: "network \<Rightarrow> string \<Rightarrow> state \<Rightarrow> state" where
  "translateToLanguage net targetLang s = translate_loop net targetLang (originalTexts s) 0 s"

section \<open>restoreOriginal\<close>

fun restore_nodes :: "(node \<times> text_record) list \<Rightarrow> state \<Rightarrow> state" where
  "restore_nodes [] s = s"
| "restore_nodes ((n, data) # rest) s =
     restore_nodes rest (s\<lparr>textContent := (textContent s)(n := original data)\<rparr>)"

definition restoreOriginal :: "state \<Rightarrow> state" where
  "restoreOriginal s = restore_nodes (originalTexts s) s"

section \<open>translatePage\<close>

text \<open>
  The \<open>try\<close> block ends normally with a state, or throws with the state it reached.
  \<open>catch\<close> logs the error; \<open>finally\<close> clears the flag and the indicator either way.
  No step of the block throws here: the writes to the nodes, to the \<open>Map\<close> and to
  \<open>localStorage\<close> are total, and \<open>getCachedTranslation\<close> catches what its request throws.
\<close>

definition translatePage_try :: "network \<Rightarrow> string \<Rightarrow> state \<Rightarrow> (exn \<times> state) + state" where
  "translatePage_try net targetLang s =
     (let s1 = (if targetLang = ''en'' then restoreOriginal s
                else translateToLanguage net targetLang s);
          s2 = s1\<lparr>currentLang := targetLang, documentLang := targetLang\<rparr>;
          s3 = s2\<lparr>localStorage := (localStorage s2)(''site_language'' \<mapsto> targetLang),
                  events := events s2 @ [StorageSet ''site_language'' targetLang]\<rparr>
      in Inr (s3\<lparr>events := events s3 @ [LogSuccess targetLang]\<rparr>))"

definition translatePage_finally :: "(exn \<times> state) + state \<Rightarrow> state" where
  "translatePage_finally r =
     (let s1 = (case r of
                  Inl (e, s) \<Rightarrow> s\<lparr>events := events s @ [ErrorFailed e]\<rparr>
                | Inr s \<Rightarrow> s)
      in setLoading False (s1\<lparr>isTranslating := False\<rparr>))"

definition translatePage :: "network \<Rightarrow> string \<Rightarrow> state \<Rightarrow> state" where
  "translatePage net targetLang s =
     (if isTranslating s \<or> targetLang = currentLang s then s
      else translatePage_finally
             (translatePage_try net targetLang (setLoading True (s\<lparr>isTranslating := True\<rparr>))))"

text \<open>\<open>new Translator()\<close> on a page: no records, an empty cache, the base language, not busy.\<close>

definition new_Translator :: "state \<Rightarrow> state" where
  "new_Translator s =
     s\<lparr>originalTexts := [], cache := Map.empty, currentLang := ''en'', isTranslating := False\<rparr>"


section \<open>Notions the properties are stated with\<close>

text \<open>
  The remote call succeeds when the response has an HTTP status in 200..299, its body parses,
  \<open>responseStatus\<close> is the number 200 and \<open>translatedText\<close> is a non-empty string.
  Every other outcome is a failure.
\<close>

fun remote_succeeded :: "fetch_result \<Rightarrow> bool" where
  "remote_succeeded (Response status (Json responseStatus (Str translatedText))) =
     (200 \<le> status \<and> status \<le> 299 \<and> responseStatus = Some 200 \<and> translatedText \<noteq> [])"
| "remote_succeeded r = False"

text \<open>
  Both tiers miss: the \<open>Map\<close> has no entry under the key, and \<open>localStorage.getItem\<close>
  returns \<open>null\<close> or the empty string.
\<close>

definition tiers_miss :: "state \<Rightarrow> string \<Rightarrow> string \<Rightarrow> bool" where
  "tiers_miss s t targetLang =
     (cache s (cacheKey t targetLang) = None \<and>
      (localStorage s (localStorageKey (cacheKey t targetLang)) = None \<or>
       localStorage s (localStorageKey (cacheKey t targetLang)) = Some []))"

text \<open>What the network answers to the request a call issues from state \<open>s\<close>.\<close>

definition answer :: "network \<Rightarrow> string \<Rightarrow> string \<Rightarrow> state \<Rightarrow> fetch_result" where
  "answer net t targetLang s =
     net (events s @ [StorageGet (localStorageKey (cacheKey t targetLang))]) t targetLang"

text \<open>The network calls among the events, in order.\<close>

fun requests :: "event list \<Rightarrow> (string \<times> string) list" where
  "requests [] = []"
| "requests (Fetch t l # es) = (t, l) # requests es"
| "requests (e # es) = requests es"

fun is_warning :: "event \<Rightarrow> bool" where
  "is_warning (WarnIssue t) = True"
| "is_warning (WarnFailed t e) = True"
| "is_warning e = False"

text \<open>Requests served one after the other, each awaited before the next.\<close>

fun serve :: "network \<Rightarrow> (string \<times> string) list \<Rightarrow> state \<Rightarrow> state" where
  "serve net [] s = s"
| "serve net ((t, l) # reqs) s = serve net reqs (snd (getCachedTranslation net t l s))"

text \<open>
  What a translation run never writes: every field but the text of the nodes, the two cache
  tiers and the events.
\<close>

definition run_frame ::
  "state \<Rightarrow> (node \<times> text_record) list \<times> string \<times> bool \<times> dom_node \<times> string list \<times> string option \<times> bool option \<times> string" where
  "run_frame s =
     (originalTexts s, currentLang s, isTranslating s, body s, htmlAttrs s,
      loadingDisplay s, selectDisabled s, documentLang s)"

text \<open>The state the \<open>try\<close> block ended in, whether it ended normally or threw.\<close>

definition outcome_state :: "(exn \<times> state) + state \<Rightarrow> state" where
  "outcome_state r = (case r of Inl (e, s) \<Rightarrow> s | Inr s \<Rightarrow> s)"

text \<open>
  The loading indicator shows (or hides), as far as the page has the two elements:
  \<open>#translationLoading\<close> is displayed as a block (or not at all) and \<open>#languageSelect\<close>
  is disabled (or enabled).
\<close>

definition indicator :: "bool \<Rightarrow> state \<Rightarrow> bool" where
  "indicator on s =
     ((loadingDisplay s = None \<or> loadingDisplay s = Some (if on then ''block'' else ''none'')) \<and>
      (selectDisabled s = None \<or> selectDisabled s = Some on))"





text \<open>
  The second text store differs from the first only on recorded nodes, and only by values
  that are neither empty nor the recorded original of the node.
\<close>

definition only_translations :: "(node \<times> text_record) list \<Rightarrow> (node \<Rightarrow> string) \<Rightarrow> (node \<Rightarrow> string) \<Rightarrow> bool" where
  "only_translations recs f g =
     (\<forall>n. g n \<noteq> f n \<longrightarrow> (\<exists>data. (n, data) \<in> set recs \<and> g n \<noteq> [] \<and> g n \<noteq> original data))"

section \<open>Example pages and networks\<close>

definition empty_page :: state where
  "empty_page =
     \<lparr>originalTexts = [], cache = Map.empty, currentLang = ''en'', isTranslating = False,
      body = Element ''BODY'' [] [], htmlAttrs = [], textContent = (\<lambda>n. []),
      localStorage = Map.empty, loadingDisplay = Some ''none'', selectDisabled = Some False,
      documentLang = ''en'', events = []\<rparr>"

definition net_down :: network where
  "net_down h t targetLang = FetchThrows"

definition quoted_bonjour :: string where
  "quoted_bonjour = dquote # ''Bonjour le monde'' @ [dquote]"

definition net_bonjour :: network where
  "net_bonjour h t targetLang = Response 200 (Json (Some 200) (Str quoted_bonjour))"

text \<open>A page whose persisted store holds an empty translation for \<open>Hi\<close> in French.\<close>

definition stale_page :: state where
  "stale_page = empty_page\<lparr>localStorage := [''translation_Hi_fr'' \<mapsto> []]\<rparr>"

text \<open>A page with a translation in the memory tier, and one with it in the persisted tier only.\<close>

definition cached_page :: state where
  "cached_page = empty_page\<lparr>cache := [''Hello world_fr'' \<mapsto> ''Bonjour le monde'']\<rparr>"

definition persisted_page :: state where
  "persisted_page =
     empty_page\<lparr>localStorage := [''translation_Hello world_fr'' \<mapsto> ''Bonjour le monde'']\<rparr>"

text \<open>
  The page \<open><body><p>Hello world</p></body></html>\<close> with a new translator, the same page
  with a space on either side of the text, and a page whose only text is a style sheet.
\<close>

definition hello_page :: state where
  "hello_page =
     empty_page\<lparr>body := Element ''BODY'' [] [Element ''P'' [] [Text 0]],
                textContent := (\<lambda>n. [])(0 := ''Hello world'')\<rparr>"

definition padded_page :: state where
  "padded_page = hello_page\<lparr>textContent := (\<lambda>n. [])(0 := '' Hello world '')\<rparr>"

definition style_page :: state where
  "style_page =
     empty_page\<lparr>body := Element ''BODY'' [] [Element ''STYLE'' [] [Text 0]],
                textContent := (\<lambda>n. [])(0 := ''p { color: red }'')\<rparr>"

text \<open>The hello page while a run is in flight.\<close>

definition busy_page :: state where
  "busy_page = hello_page\<lparr>isTranslating := True\<rparr>"





section \<open>Facts about getCachedTranslation\<close>

lemma requests_append: "requests (xs @ ys) = requests xs @ requests ys"
  by (induction xs rule: requests.induct) auto

lemma start_miss:
  "tiers_miss s t l \<Longrightarrow>
   getCachedTranslation_start net t l s =
     (Awaiting (answer net t l s),
      s\<lparr>events := events s @ [StorageGet (localStorageKey (cacheKey t l)), Fetch t l]\<rparr>)"
  by (auto simp: tiers_miss_def getCachedTranslation_start_def answer_def Let_def split: option.splits list.splits)

lemma requests_warning: "is_warning e \<Longrightarrow> requests [e] = []"
  by (cases e) auto

lemma finish_failed:
  assumes "\<not> remote_succeeded r"
  shows "\<exists>e. is_warning e \<and> getCachedTranslation_finish t l r s = (t, s\<lparr>events := events s @ [e]\<rparr>)"
proof (cases r)
  case FetchThrows
  then have "is_warning (WarnFailed t NetworkError) \<and>
      getCachedTranslation_finish t l r s = (t, s\<lparr>events := events s @ [WarnFailed t NetworkError]\<rparr>)"
    by (simp add: getCachedTranslation_finish_def warn_failed_def)
  then show ?thesis by blast
next
  case (Response status b)
  show ?thesis
  proof (cases "status < 200 \<or> 299 < status")
    case True
    with Response have "is_warning (WarnFailed t (ApiError status)) \<and>
        getCachedTranslation_finish t l r s = (t, s\<lparr>events := events s @ [WarnFailed t (ApiError status)]\<rparr>)"
      by (simp add: getCachedTranslation_finish_def warn_failed_def)
    then show ?thesis by blast
  next
    case ok: False
    show ?thesis
    proof (cases b)
      case Unreadable
      with Response ok have "is_warning (WarnFailed t JsonError) \<and>
          getCachedTranslation_finish t l r s = (t, s\<lparr>events := events s @ [WarnFailed t JsonError]\<rparr>)"
        by (simp add: getCachedTranslation_finish_def warn_failed_def)
      then show ?thesis by blast
    next
      case (Json responseStatus field)
      show ?thesis
      proof (cases "responseStatus = Some 200 \<and> field \<noteq> Absent \<and> field \<noteq> Str []")
        case False
        with Response ok Json have "is_warning (WarnIssue t) \<and>
            getCachedTranslation_finish t l r s = (t, s\<lparr>events := events s @ [WarnIssue t]\<rparr>)"
          by (auto simp: getCachedTranslation_finish_def)
        then show ?thesis by blast
      next
        case True
        with assms Response ok Json have "field = NonString"
          by (cases field) auto
        with True Response ok Json have "is_warning (WarnFailed t TypeError) \<and>
            getCachedTranslation_finish t l r s = (t, s\<lparr>events := events s @ [WarnFailed t TypeError]\<rparr>)"
          by (simp add: getCachedTranslation_finish_def warn_failed_def)
        then show ?thesis by blast
      qed
    qed
  qed
qed

lemma finish_succeeded:
  "200 \<le> status \<Longrightarrow> status \<le> 299 \<Longrightarrow> tt \<noteq> [] \<Longrightarrow>
   getCachedTranslation_finish t l (Response status (Json (Some 200) (Str tt))) s =
     (trim (strip_quotes tt),
      s\<lparr>cache := (cache s)(cacheKey t l \<mapsto> trim (strip_quotes tt)),
        localStorage := (localStorage s)(localStorageKey (cacheKey t l) \<mapsto> trim (strip_quotes tt)),
        events := events s @ [StorageSet (localStorageKey (cacheKey t l)) (trim (strip_quotes tt))]\<rparr>)"
  by (simp add: getCachedTranslation_finish_def Let_def)



lemma getCachedTranslation_failed:
  assumes "tiers_miss s t l" and "\<not> remote_succeeded (answer net t l s)"
  shows "\<exists>e. is_warning e \<and> getCachedTranslation net t l s =
           (t, s\<lparr>events := events s @ [StorageGet (localStorageKey (cacheKey t l)), Fetch t l, e]\<rparr>)"
proof -
  obtain e where "is_warning e"
    and "getCachedTranslation_finish t l (answer net t l s)
           (s\<lparr>events := events s @ [StorageGet (localStorageKey (cacheKey t l)), Fetch t l]\<rparr>) =
         (t, s\<lparr>events := events s @ [StorageGet (localStorageKey (cacheKey t l)), Fetch t l]\<rparr>
               \<lparr>events := events (s\<lparr>events := events s @ [StorageGet (localStorageKey (cacheKey t l)), Fetch t l]\<rparr>) @ [e]\<rparr>)"
    using finish_failed[OF assms(2)] by blast
  then show ?thesis
    by (intro exI[of _ e]) (simp add: getCachedTranslation_def start_miss[OF assms(1)])
qed

lemma getCachedTranslation_succeeded:
  assumes "tiers_miss s t l" and "answer net t l s = Response status (Json (Some 200) (Str tt))"
    and "200 \<le> status" "status \<le> 299" "tt \<noteq> []"
  shows "getCachedTranslation net t l s =
     (trim (strip_quotes tt),
      s\<lparr>cache := (cache s)(cacheKey t l \<mapsto> trim (strip_quotes tt)),
        localStorage := (localStorage s)(localStorageKey (cacheKey t l) \<mapsto> trim (strip_quotes tt)),
        events := events s @ [StorageGet (localStorageKey (cacheKey t l)), Fetch t l,
                              StorageSet (localStorageKey (cacheKey t l)) (trim (strip_quotes tt))]\<rparr>)"
  by (simp add: getCachedTranslation_def start_miss[OF assms(1)] assms(2) finish_succeeded[OF assms(3-5)])

lemma remote_succeededE:
  assumes "remote_succeeded r"
  obtains status tt where "r = Response status (Json (Some 200) (Str tt))" "200 \<le> status" "status \<le> 299" "tt \<noteq> []"
  using assms by (cases r rule: remote_succeeded.cases) auto

lemma miss_requests:
  assumes "tiers_miss s t l"
  shows "requests (events (snd (getCachedTranslation net t l s))) = requests (events s) @ [(t, l)]"
proof (cases "remote_succeeded (answer net t l s)")
  case True
  then obtain status tt where "answer net t l s = Response status (Json (Some 200) (Str tt))"
      "200 \<le> status" "status \<le> 299" "tt \<noteq> []"
    by (rule remote_succeededE)
  then show ?thesis
    by (simp add: getCachedTranslation_succeeded[OF assms] requests_append)
next
  case False
  then obtain e where "is_warning e" and "getCachedTranslation net t l s =
           (t, s\<lparr>events := events s @ [StorageGet (localStorageKey (cacheKey t l)), Fetch t l, e]\<rparr>)"
    using getCachedTranslation_failed[OF assms] by blast
  then show ?thesis
    using requests_warning[of e] by (simp add: requests_append)
qed

lemma hit_memory:
  "cache s (cacheKey t l) = Some v \<Longrightarrow> getCachedTranslation net t l s = (v, s)"
  by (simp add: getCachedTranslation_def getCachedTranslation_start_def)

lemma hit_persisted:
  "cache s (cacheKey t l) = None \<Longrightarrow> localStorage s (localStorageKey (cacheKey t l)) = Some v \<Longrightarrow> v \<noteq> [] \<Longrightarrow>
   getCachedTranslation net t l s =
     (v, s\<lparr>cache := (cache s)(cacheKey t l \<mapsto> v),
           events := events s @ [StorageGet (localStorageKey (cacheKey t l))]\<rparr>)"
  by (cases v) (simp_all add: getCachedTranslation_def getCachedTranslation_start_def)

lemma cache_kept:
  assumes "cache s k = Some v"
  shows "cache (snd (getCachedTranslation net t l s)) k = Some v"
proof (cases "cache s (cacheKey t l)")
  case (Some w)
  then show ?thesis using assms by (simp add: hit_memory)
next
  case None
  then have ne: "k \<noteq> cacheKey t l" using assms by auto
  show ?thesis
  proof (cases "tiers_miss s t l")
    case False
    then obtain w where "localStorage s (localStorageKey (cacheKey t l)) = Some w" "w \<noteq> []"
      using None by (auto simp: tiers_miss_def)
    then show ?thesis using assms ne by (simp add: hit_persisted[OF None])
  next
    case True
    show ?thesis
    proof (cases "remote_succeeded (answer net t l s)")
      case True
      then obtain status tt where "answer net t l s = Response status (Json (Some 200) (Str tt))"
        "200 \<le> status" "status \<le> 299" "tt \<noteq> []"
        by (rule remote_succeededE)
      then show ?thesis
        using assms ne by (simp add: getCachedTranslation_succeeded[OF \<open>tiers_miss s t l\<close>])
    next
      case False
      then obtain e where "getCachedTranslation net t l s =
           (t, s\<lparr>events := events s @ [StorageGet (localStorageKey (cacheKey t l)), Fetch t l, e]\<rparr>)"
        using getCachedTranslation_failed[OF \<open>tiers_miss s t l\<close>] by blast
      then show ?thesis using assms by simp
    qed
  qed
qed

lemma cache_kept_serve:
  "cache s k = Some v \<Longrightarrow> cache (serve net reqs s) k = Some v"
  by (induction reqs arbitrary: s) (auto simp: cache_kept)



lemma empty_page_misses: "tiers_miss empty_page t l"
  by (simp add: tiers_miss_def empty_page_def)


lemma quoted_bonjour_not_empty: "quoted_bonjour \<noteq> []"
  by (simp add: quoted_bonjour_def)

lemma net_bonjour_answer:
  "answer net_bonjour t l s = Response 200 (Json (Some 200) (Str quoted_bonjour))"
  by (simp add: answer_def net_bonjour_def)

lemma net_bonjour_succeeds: "remote_succeeded (answer net_bonjour t l s)"
  by (simp add: net_bonjour_answer quoted_bonjour_not_empty)




section \<open>What a run leaves alone\<close>

lemma start_frame:
  "run_frame (snd (getCachedTranslation_start net t l s)) = run_frame s \<and>
   textContent (snd (getCachedTranslation_start net t l s)) = textContent s"
  by (simp add: getCachedTranslation_start_def run_frame_def Let_def split: option.splits list.splits)

lemma finish_frame:
  "run_frame (snd (getCachedTranslation_finish t l r s)) = run_frame s \<and>
   textContent (snd (getCachedTranslation_finish t l r s)) = textContent s"
  by (simp add: getCachedTranslation_finish_def warn_failed_def run_frame_def Let_def
      split: fetch_result.splits http_body.splits translated_field.splits)

lemma apply_translation_frame:
  "run_frame (apply_translation n data v s) = run_frame s"
  by (simp add: apply_translation_def run_frame_def)


lemma start_batch_frame:
  "run_frame (snd (start_batch net l batch s)) = run_frame s \<and>
   textContent (snd (start_batch net l batch s)) = textContent s"
proof (induction batch arbitrary: s)
  case Nil
  then show ?case by simp
next
  case (Cons x batch)
  obtain n data where x: "x = (n, data)" by (cases x)
  obtain lk s1 where g: "getCachedTranslation_start net (original data) l s = (lk, s1)"
    by (cases "getCachedTranslation_start net (original data) l s")
  obtain ts s2 where b: "start_batch net l batch s1 = (ts, s2)"
    by (cases "start_batch net l batch s1")
  have "run_frame s1 = run_frame s \<and> textContent s1 = textContent s"
    using start_frame[of net "original data" l s] by (simp add: g)
  moreover have "run_frame s2 = run_frame s1 \<and> textContent s2 = textContent s1"
    using Cons.IH[of s1] by (simp add: b)
  ultimately show ?case
    by (simp add: x g b)
qed

lemma finish_task_frame:
  "run_frame (finish_task l tk s) = run_frame s"
proof -
  obtain n data lk where tk: "tk = (n, data, lk)" by (cases tk)
  show ?thesis
  proof (cases lk)
    case (Hit v)
    then show ?thesis by (simp add: tk finish_task_def apply_translation_frame)
  next
    case (Awaiting r)
    obtain v s1 where g: "getCachedTranslation_finish (original data) l r s = (v, s1)"
      by (cases "getCachedTranslation_finish (original data) l r s")
    then have "run_frame s1 = run_frame s"
      using finish_frame[of "original data" l r s] by simp
    then show ?thesis
      by (simp add: tk Awaiting finish_task_def g apply_translation_frame)
  qed
qed

lemma finish_batch_frame:
  "run_frame (finish_batch l ts s) = run_frame s"
  by (induction ts arbitrary: s) (simp_all add: finish_task_frame)

lemma run_batch_frame:
  "run_frame (run_batch net l batch s) = run_frame s"
proof -
  obtain ts s1 where b: "start_batch net l batch s = (ts, s1)"
    by (cases "start_batch net l batch s")
  then have "run_frame s1 = run_frame s"
    using start_batch_frame[of net l batch s] by simp
  then show ?thesis
    by (simp add: run_batch_def b finish_batch_frame)
qed

lemma pause_frame: "run_frame (pause ms s) = run_frame s"
  by (simp add: pause_def run_frame_def)

lemma translate_loop_done:
  "\<not> i < length nodes \<Longrightarrow> translate_loop net l nodes i s = s"
  by (subst translate_loop.simps) simp

lemma translate_loop_step:
  "i < length nodes \<Longrightarrow>
   translate_loop net l nodes i s =
     translate_loop net l nodes (i + batchSize)
       (if i + batchSize < length nodes
        then pause 300 (run_batch net l (take batchSize (drop i nodes)) s)
        else run_batch net l (take batchSize (drop i nodes)) s)"
  by (subst translate_loop.simps) (simp add: Let_def)

lemma translate_loop_frame:
  "run_frame (translate_loop net l nodes i s) = run_frame s"
proof (induction net l nodes i s rule: translate_loop.induct)
  case (1 net l nodes i s)
  show ?case
  proof (cases "i < length nodes")
    case False
    then show ?thesis by (simp add: translate_loop_done)
  next
    case True
    let ?s1 = "run_batch net l (take batchSize (drop i nodes)) s"
    let ?s2 = "if i + batchSize < length nodes then pause 300 ?s1 else ?s1"
    have "run_frame (translate_loop net l nodes (i + batchSize) ?s2) = run_frame ?s2"
      using "1.IH"[OF True refl refl refl] .
    also have "run_frame ?s2 = run_frame s"
      by (simp add: pause_frame run_batch_frame)
    finally show ?thesis
      by (simp add: translate_loop_step[OF True])
  qed
qed

lemma translateToLanguage_frame:
  "run_frame (translateToLanguage net l s) = run_frame s"
  by (simp add: translateToLanguage_def translate_loop_frame)

lemma translateToLanguage_fields:
  "originalTexts (translateToLanguage net l s) = originalTexts s"
  "isTranslating (translateToLanguage net l s) = isTranslating s"
  "loadingDisplay (translateToLanguage net l s) = loadingDisplay s"
  "selectDisabled (translateToLanguage net l s) = selectDisabled s"
  using translateToLanguage_frame[of net l s] by (simp_all add: run_frame_def)

section \<open>restoreOriginal\<close>

lemma restore_nodes_frame:
  "run_frame (restore_nodes xs s) = run_frame s \<and> cache (restore_nodes xs s) = cache s \<and>
   localStorage (restore_nodes xs s) = localStorage s \<and> events (restore_nodes xs s) = events s"
  by (induction xs s rule: restore_nodes.induct) (simp_all add: run_frame_def)

lemma restore_nodes_other:
  "n \<notin> fst ` set xs \<Longrightarrow> textContent (restore_nodes xs s) n = textContent s n"
  by (induction xs s rule: restore_nodes.induct) auto

lemma restore_nodes_text:
  "distinct (map fst xs) \<Longrightarrow> (n, r) \<in> set xs \<Longrightarrow> textContent (restore_nodes xs s) n = original r"
proof (induction xs s rule: restore_nodes.induct)
  case (1 s)
  then show ?case by simp
next
  case (2 m data rest s)
  show ?case
  proof (cases "(n, r) = (m, data)")
    case True
    then have "n \<notin> fst ` set rest"
      using "2.prems"(1) by auto
    then show ?thesis
      using True by (simp add: restore_nodes_other)
  next
    case False
    then have "(n, r) \<in> set rest"
      using "2.prems"(2) by auto
    then show ?thesis
      using "2.IH" "2.prems"(1) by simp
  qed
qed

lemma restoreOriginal_fields:
  "originalTexts (restoreOriginal s) = originalTexts s"
  "isTranslating (restoreOriginal s) = isTranslating s"
  "loadingDisplay (restoreOriginal s) = loadingDisplay s"
  "selectDisabled (restoreOriginal s) = selectDisabled s"
  using restore_nodes_frame[of "originalTexts s" s] by (simp_all add: restoreOriginal_def run_frame_def)

section \<open>translatePage\<close>

lemma translatePage_runs:
  "\<not> isTranslating s \<Longrightarrow> l \<noteq> currentLang s \<Longrightarrow>
   translatePage net l s =
     translatePage_finally (translatePage_try net l (setLoading True (s\<lparr>isTranslating := True\<rparr>)))"
  by (simp add: translatePage_def)

lemma translatePage_try_returns:
  "translatePage_try net l s =
     Inr ((if l = ''en'' then restoreOriginal s else translateToLanguage net l s)
          \<lparr>currentLang := l, documentLang := l,
            localStorage := (localStorage (if l = ''en'' then restoreOriginal s else translateToLanguage net l s))
                              (''site_language'' \<mapsto> l),
            events := events (if l = ''en'' then restoreOriginal s else translateToLanguage net l s) @
                        [StorageSet ''site_language'' l, LogSuccess l]\<rparr>)"
  by (simp add: translatePage_try_def Let_def)

lemma translatePage_after:
  assumes "\<not> isTranslating s"
  shows "originalTexts (translatePage net l s) = originalTexts s \<and>
         \<not> isTranslating (translatePage net l s) \<and>
         currentLang (translatePage net l s) = l"
proof (cases "l = currentLang s")
  case True
  then show ?thesis using assms by (simp add: translatePage_def)
next
  case False
  show ?thesis
    by (simp add: translatePage_runs[OF assms False] translatePage_try_returns translatePage_finally_def
        setLoading_def translateToLanguage_fields restoreOriginal_fields)
qed

lemma translatePage_en_text:
  assumes "\<not> isTranslating s" and "currentLang s \<noteq> ''en''"
    and "distinct (map fst (originalTexts s))" and "(n, r) \<in> set (originalTexts s)"
  shows "textContent (translatePage net ''en'' s) n = original r"
proof -
  have ne: "''en'' \<noteq> currentLang s" using assms(2) by simp
  show ?thesis
    using restore_nodes_text[OF assms(3,4)]
    by (simp add: translatePage_runs[OF assms(1) ne] translatePage_try_returns translatePage_finally_def
        setLoading_def restoreOriginal_def)
qed

section \<open>extractText\<close>

lemma record_nodes_keys:
  "distinct (map fst m) \<Longrightarrow> distinct (map fst (record_nodes tc ns i m))"
  by (induction tc ns i m rule: record_nodes.induct) (auto simp: Let_def)

lemma record_nodes_new:
  "(n, r) \<in> set (record_nodes tc ns i m) \<Longrightarrow>
   (n, r) \<in> set m \<or>
   (\<exists>ptag. (n, ptag) \<in> set ns \<and> original r = trim (tc n) \<and> parentTag r = toLowerCase ptag)"
proof (induction tc ns i m rule: record_nodes.induct)
  case (1 tc index m)
  then show ?case by simp
next
  case (2 tc k ptag rest index m)
  let ?m' = "if trim (tc k) \<noteq> [] \<and> k \<notin> set (map fst m)
             then m @ [(k, \<lparr>id_index = index, original = trim (tc k), parentTag = toLowerCase ptag\<rparr>)]
             else m"
  from "2.prems" have "(n, r) \<in> set (record_nodes tc rest (Suc index) ?m')"
    by (simp add: Let_def)
  then have "(n, r) \<in> set ?m' \<or>
      (\<exists>ptag. (n, ptag) \<in> set rest \<and> original r = trim (tc n) \<and> parentTag r = toLowerCase ptag)"
    using "2.IH"[OF refl refl] by simp
  then show ?case
    by (auto split: if_splits)
qed

lemma walk_accepted:
  "(n, ptag) \<in> set (walk tc anc d) \<Longrightarrow>
   \<exists>attrs higher. acceptNode tc ((ptag, attrs) # higher) n"
proof (induction tc anc d rule: walk.induct)
  case (1 tc anc k)
  then have a: "acceptNode tc anc n" and p: "ptag = fst (hd anc)"
    by (auto split: if_splits)
  then obtain attrs higher where "anc = (ptag, attrs) # higher"
    by (cases anc) (auto simp: acceptNode_def)
  with a show ?case by blast
next
  case (2 tc anc tag attrs kids)
  then show ?case by auto
qed

lemma walker_nodes_accepted:
  "(n, ptag) \<in> set (walker_nodes s) \<Longrightarrow>
   \<exists>attrs higher. acceptNode (textContent s) ((ptag, attrs) # higher) n"
  by (auto simp: walker_nodes_def split: dom_node.splits dest: walk_accepted)

lemma extractText_keys:
  "distinct (map fst (originalTexts s)) \<Longrightarrow> distinct (map fst (originalTexts (extractText s)))"
  by (simp add: extractText_def Let_def record_nodes_keys)

lemma extractText_fields:
  "textContent (extractText s) = textContent s"
  "isTranslating (extractText s) = isTranslating s"
  "currentLang (extractText s) = currentLang s"
  by (simp_all add: extractText_def Let_def)

lemma extractText_new:
  assumes "(n, r) \<in> set (originalTexts (extractText s))" and "n \<notin> fst ` set (originalTexts s)"
  shows "\<exists>ptag attrs higher.
           acceptNode (textContent s) ((ptag, attrs) # higher) n \<and>
           original r = trim (textContent s n) \<and> parentTag r = toLowerCase ptag"
proof -
  from assms(1) have "(n, r) \<in> set (record_nodes (textContent s) (walker_nodes s) 0 (originalTexts s))"
    by (simp add: extractText_def Let_def)
  then have "(n, r) \<in> set (originalTexts s) \<or>
      (\<exists>ptag. (n, ptag) \<in> set (walker_nodes s) \<and> original r = trim (textContent s n) \<and>
        parentTag r = toLowerCase ptag)"
    by (rule record_nodes_new)
  moreover have "(n, r) \<notin> set (originalTexts s)"
    using assms(2) by force
  ultimately show ?thesis
    using walker_nodes_accepted by blast
qed

text \<open>Translating to a language and then back restores every recorded node to its record.\<close>

lemma restore_after_translate:
  assumes "\<not> isTranslating s" and "l \<noteq> ''en''"
    and "distinct (map fst (originalTexts s))" and "(n, r) \<in> set (originalTexts s)"
  shows "textContent (translatePage net2 ''en'' (translatePage net1 l s)) n = original r"
proof -
  have "originalTexts (translatePage net1 l s) = originalTexts s"
    and "\<not> isTranslating (translatePage net1 l s)"
    and "currentLang (translatePage net1 l s) = l"
    using translatePage_after[OF assms(1), of net1 l] by simp_all
  then show ?thesis
    using assms(2-4) by (intro translatePage_en_text) simp_all
qed

lemma acceptNode_conditions:
  assumes "acceptNode tc ((ptag, attrs) # higher) n"
  shows "toLowerCase ptag \<noteq> ''option'' \<and>
         \<not> list_ex (\<lambda>(tag, attrs). ''data-no-translate'' \<in> set attrs) ((ptag, attrs) # higher) \<and>
         2 \<le> length (trim (tc n)) \<and> \<not> all_digits (trim (tc n)) \<and> \<not> url_like (trim (tc n))"
  using assms by (auto simp: acceptNode_def Let_def split: if_splits)

lemma url_like_prefixes:
  "url_like (''http'' @ t)" "url_like (''www.'' @ t)" "url_like (''@'' @ t)"
  by (simp_all add: url_like_def starts_with_ci_def fold_case_def)

text \<open>
  What the filter does guarantee: a node recorded by an extraction has a parent that is not
  an \<open>option\<close>, no element above it opts out, and its trimmed text has at least two
  characters, is not a run of digits and does not start like a URL or a handle. A page
  without text yields no record.
\<close>

lemma extractText_filters:
  assumes "(n, r) \<in> set (originalTexts (extractText s))" and "n \<notin> fst ` set (originalTexts s)"
  shows "parentTag r \<noteq> ''option'' \<and> 2 \<le> length (original r) \<and>
         \<not> all_digits (original r) \<and> \<not> url_like (original r) \<and>
         (\<exists>ptag attrs higher.
            parentTag r = toLowerCase ptag \<and>
            \<not> list_ex (\<lambda>(tag, attrs). ''data-no-translate'' \<in> set attrs) ((ptag, attrs) # higher))"
proof -
  obtain ptag attrs higher where "acceptNode (textContent s) ((ptag, attrs) # higher) n"
    and "original r = trim (textContent s n)" and "parentTag r = toLowerCase ptag"
    using extractText_new[OF assms] by blast
  then show ?thesis
    using acceptNode_conditions[of "textContent s" ptag attrs higher n] by auto
qed

lemma extractText_empty_page: "originalTexts (extractText empty_page) = []"
  by code_simp

section \<open>Batches\<close>














section \<open>What a run writes to the nodes\<close>



lemma only_translations_mono:
  "set recs \<subseteq> set recs' \<Longrightarrow> only_translations recs f g \<Longrightarrow> only_translations recs' f g"
  unfolding only_translations_def by blast









section \<open>The pauses of a run\<close>









section \<open>The claims\<close>

subsection \<open>Restoring the original text\<close>

text \<open>
  C1, amended. After \<open>translatePage\<close> to a language other than \<open>en\<close> and then
  \<open>translatePage\<close> to \<open>en\<close>, every recorded node holds the text of its record, and for a
  node recorded by this extraction that is the trimmed text the node had when it was
  extracted.
\<close>

theorem restore_gives_recorded_text:
  assumes "\<not> isTranslating w" and "distinct (map fst (originalTexts w))" and "l \<noteq> ''en''"
    and "(n, r) \<in> set (originalTexts (extractText w))"
  shows "textContent (translatePage net2 ''en'' (translatePage net1 l (extractText w))) n = original r \<and>
         (n \<notin> fst ` set (originalTexts w) \<longrightarrow> original r = trim (textContent w n))"
proof -
  have "\<not> isTranslating (extractText w)"
    using assms(1) by (simp add: extractText_fields)
  then have "textContent (translatePage net2 ''en'' (translatePage net1 l (extractText w))) n = original r"
    using assms(3) extractText_keys[OF assms(2)] assms(4) by (rule restore_after_translate)
  moreover have "original r = trim (textContent w n)" if "n \<notin> fst ` set (originalTexts w)"
    using extractText_new[OF assms(4) that] by blast
  ultimately show ?thesis by blast
qed

theorem restore_gives_recorded_text_witness:
  "\<not> isTranslating padded_page \<and> distinct (map fst (originalTexts padded_page)) \<and> ''fr'' \<noteq> ''en'' \<and>
   (0, \<lparr>id_index = 0, original = ''Hello world'', parentTag = ''p''\<rparr>)
     \<in> set (originalTexts (extractText padded_page)) \<and>
   0 \<notin> fst ` set (originalTexts padded_page) \<and>
   textContent (translatePage net_bonjour ''fr'' (extractText padded_page)) 0 = ''Bonjour le monde'' \<and>
   textContent (translatePage net_down ''en'' (translatePage net_bonjour ''fr'' (extractText padded_page))) 0 =
     ''Hello world'' \<and>
   trim (textContent padded_page 0) = ''Hello world''"
proof -
  have a: "\<not> isTranslating padded_page" "distinct (map fst (originalTexts padded_page))"
    by (simp_all add: padded_page_def hello_page_def empty_page_def)
  have b: "''fr'' \<noteq> ''en''"
    by simp
  have c: "(0, \<lparr>id_index = 0, original = ''Hello world'', parentTag = ''p''\<rparr>)
     \<in> set (originalTexts (extractText padded_page))"
    by code_simp
  have d: "textContent (translatePage net_bonjour ''fr'' (extractText padded_page)) 0 = ''Bonjour le monde''"
    by code_simp
  have e: "0 \<notin> fst ` set (originalTexts padded_page)"
    by (simp add: padded_page_def hello_page_def empty_page_def)
  show ?thesis
    using a b c d e restore_gives_recorded_text[OF a b c, of net_down net_bonjour]
    by simp
qed

text \<open>
  C1, as stated, fails when the text of a node has white space around it: the node is
  recorded, and after translating and restoring it holds the trimmed text, not the text it
  had when it was extracted.
\<close>

theorem restore_loses_padding_counterexample:
  "map fst (originalTexts (extractText padded_page)) = [0] \<and>
   textContent (extractText padded_page) 0 = '' Hello world '' \<and>
   textContent (translatePage net_bonjour ''fr'' (extractText padded_page)) 0 = ''Bonjour le monde'' \<and>
   textContent (translatePage net_bonjour ''en'' (translatePage net_bonjour ''fr'' (extractText padded_page))) 0 =
     ''Hello world''"
  by code_simp

subsection \<open>A failed request is not cached\<close>

text \<open>
  C2. When both tiers miss and the remote call fails, \<open>getCachedTranslation\<close> returns the
  text it was given, leaves the cache and the persisted store as they were, and has made one
  network call; a later request for the same pair makes the call again.
\<close>

theorem failed_call_is_not_cached:
  assumes "tiers_miss s t l" and "\<not> remote_succeeded (answer net t l s)"
  shows "fst (getCachedTranslation net t l s) = t \<and>
         cache (snd (getCachedTranslation net t l s)) = cache s \<and>
         localStorage (snd (getCachedTranslation net t l s)) = localStorage s \<and>
         requests (events (snd (getCachedTranslation net t l s))) = requests (events s) @ [(t, l)] \<and>
         (\<forall>net'. requests (events (snd (getCachedTranslation net' t l (snd (getCachedTranslation net t l s))))) =
            requests (events (snd (getCachedTranslation net t l s))) @ [(t, l)])"
proof -
  obtain e where g: "getCachedTranslation net t l s =
           (t, s\<lparr>events := events s @ [StorageGet (localStorageKey (cacheKey t l)), Fetch t l, e]\<rparr>)"
    using getCachedTranslation_failed[OF assms] by blast
  define s' where "s' = snd (getCachedTranslation net t l s)"
  have c: "cache s' = cache s" and p: "localStorage s' = localStorage s"
    by (simp_all add: s'_def g)
  have "tiers_miss s' t l"
    using assms(1) by (simp add: tiers_miss_def c p)
  then have "requests (events (snd (getCachedTranslation net' t l s'))) = requests (events s') @ [(t, l)]" for net'
    by (rule miss_requests)
  moreover have "fst (getCachedTranslation net t l s) = t"
    by (simp add: g)
  moreover have "requests (events s') = requests (events s) @ [(t, l)]"
    unfolding s'_def by (rule miss_requests[OF assms(1)])
  ultimately show ?thesis
    using c p unfolding s'_def by blast
qed

theorem failed_call_is_not_cached_witness:
  "tiers_miss empty_page ''Hello world'' ''fr'' \<and>
   \<not> remote_succeeded (answer net_down ''Hello world'' ''fr'' empty_page) \<and>
   fst (getCachedTranslation net_down ''Hello world'' ''fr'' empty_page) = ''Hello world'' \<and>
   cache (snd (getCachedTranslation net_down ''Hello world'' ''fr'' empty_page)) = Map.empty \<and>
   localStorage (snd (getCachedTranslation net_down ''Hello world'' ''fr'' empty_page)) = Map.empty \<and>
   requests (events (snd (getCachedTranslation net_down ''Hello world'' ''fr'' empty_page))) =
     [(''Hello world'', ''fr'')] \<and>
   requests (events (snd (getCachedTranslation net_bonjour ''Hello world'' ''fr''
       (snd (getCachedTranslation net_down ''Hello world'' ''fr'' empty_page))))) =
     [(''Hello world'', ''fr''), (''Hello world'', ''fr'')]"
proof -
  have m: "tiers_miss empty_page ''Hello world'' ''fr''"
    by (rule empty_page_misses)
  have f: "\<not> remote_succeeded (answer net_down ''Hello world'' ''fr'' empty_page)"
    by (simp add: answer_def net_down_def)
  have e: "cache empty_page = Map.empty" "localStorage empty_page = Map.empty" "events empty_page = []"
    by (simp_all add: empty_page_def)
  show ?thesis
    using m f failed_call_is_not_cached[OF m f] by (simp add: e)
qed

subsection \<open>Cache hits\<close>

text \<open>
  C3, amended. A value in the memory tier is returned at once: the state, and with it the
  list of events, is unchanged, so nothing was read from the persisted store and no request
  was made. Otherwise a non-empty value in the persisted tier is copied into the memory tier
  and returned, with a read of the store as the only event. Once a successful call has
  cached a translation, every later request for the pair, after any other requests, returns
  that value and leaves the state unchanged.
\<close>

theorem cache_hits_make_no_call:
  "(\<forall>v. cache s (cacheKey t l) = Some v \<longrightarrow> getCachedTranslation net t l s = (v, s)) \<and>
   (\<forall>v. cache s (cacheKey t l) = None \<and>
        localStorage s (localStorageKey (cacheKey t l)) = Some v \<and> v \<noteq> [] \<longrightarrow>
        getCachedTranslation net t l s =
          (v, s\<lparr>cache := (cache s)(cacheKey t l \<mapsto> v),
                events := events s @ [StorageGet (localStorageKey (cacheKey t l))]\<rparr>)) \<and>
   (\<forall>net1 net2 reqs.
        tiers_miss s t l \<and> remote_succeeded (answer net t l s) \<longrightarrow>
        getCachedTranslation net2 t l (serve net1 reqs (snd (getCachedTranslation net t l s))) =
          (fst (getCachedTranslation net t l s), serve net1 reqs (snd (getCachedTranslation net t l s))))"
proof (intro conjI allI impI)
  fix v assume "cache s (cacheKey t l) = Some v"
  then show "getCachedTranslation net t l s = (v, s)" by (rule hit_memory)
next
  fix v
  assume "cache s (cacheKey t l) = None \<and> localStorage s (localStorageKey (cacheKey t l)) = Some v \<and> v \<noteq> []"
  then show "getCachedTranslation net t l s =
          (v, s\<lparr>cache := (cache s)(cacheKey t l \<mapsto> v),
                events := events s @ [StorageGet (localStorageKey (cacheKey t l))]\<rparr>)"
    by (simp add: hit_persisted)
next
  fix net1 net2 reqs
  assume a: "tiers_miss s t l \<and> remote_succeeded (answer net t l s)"
  then obtain status tt where "answer net t l s = Response status (Json (Some 200) (Str tt))"
        "200 \<le> status" "status \<le> 299" "tt \<noteq> []"
    by (auto elim: remote_succeededE)
  then have "cache (snd (getCachedTranslation net t l s)) (cacheKey t l) = Some (fst (getCachedTranslation net t l s))"
    using a by (simp add: getCachedTranslation_succeeded)
  then have "cache (serve net1 reqs (snd (getCachedTranslation net t l s))) (cacheKey t l) =
      Some (fst (getCachedTranslation net t l s))"
    by (rule cache_kept_serve)
  then show "getCachedTranslation net2 t l (serve net1 reqs (snd (getCachedTranslation net t l s))) =
          (fst (getCachedTranslation net t l s), serve net1 reqs (snd (getCachedTranslation net t l s)))"
    by (rule hit_memory)
qed

theorem cache_hits_make_no_call_witness:
  "cache cached_page (cacheKey ''Hello world'' ''fr'') = Some ''Bonjour le monde'' \<and>
   getCachedTranslation net_down ''Hello world'' ''fr'' cached_page = (''Bonjour le monde'', cached_page) \<and>
   cache persisted_page (cacheKey ''Hello world'' ''fr'') = None \<and>
   localStorage persisted_page (localStorageKey (cacheKey ''Hello world'' ''fr'')) = Some ''Bonjour le monde'' \<and>
   fst (getCachedTranslation net_down ''Hello world'' ''fr'' persisted_page) = ''Bonjour le monde'' \<and>
   cache (snd (getCachedTranslation net_down ''Hello world'' ''fr'' persisted_page))
     (cacheKey ''Hello world'' ''fr'') = Some ''Bonjour le monde'' \<and>
   requests (events (snd (getCachedTranslation net_down ''Hello world'' ''fr'' persisted_page))) = [] \<and>
   tiers_miss empty_page ''Hello world'' ''fr'' \<and>
   remote_succeeded (answer net_bonjour ''Hello world'' ''fr'' empty_page) \<and>
   getCachedTranslation net_down ''Hello world'' ''fr''
       (serve net_down [(''Good bye'', ''fr'')] (snd (getCachedTranslation net_bonjour ''Hello world'' ''fr'' empty_page))) =
     (fst (getCachedTranslation net_bonjour ''Hello world'' ''fr'' empty_page),
      serve net_down [(''Good bye'', ''fr'')] (snd (getCachedTranslation net_bonjour ''Hello world'' ''fr'' empty_page)))"
proof -
  have a: "cache cached_page (cacheKey ''Hello world'' ''fr'') = Some ''Bonjour le monde''"
    by (simp add: cached_page_def empty_page_def cacheKey_def)
  have b: "cache persisted_page (cacheKey ''Hello world'' ''fr'') = None \<and>
      localStorage persisted_page (localStorageKey (cacheKey ''Hello world'' ''fr'')) = Some ''Bonjour le monde'' \<and>
      ''Bonjour le monde'' \<noteq> []"
    by (simp add: persisted_page_def empty_page_def cacheKey_def localStorageKey_def)
  have c: "tiers_miss empty_page ''Hello world'' ''fr'' \<and>
      remote_succeeded (answer net_bonjour ''Hello world'' ''fr'' empty_page)"
    by (simp add: empty_page_misses net_bonjour_succeeds)
  have e: "events persisted_page = []"
    by (simp add: persisted_page_def empty_page_def)
  have b': "cache persisted_page (cacheKey ''Hello world'' ''fr'') = None"
    "localStorage persisted_page (localStorageKey (cacheKey ''Hello world'' ''fr'')) = Some ''Bonjour le monde''"
    using b by simp_all
  have c': "tiers_miss empty_page ''Hello world'' ''fr''"
    "remote_succeeded (answer net_bonjour ''Hello world'' ''fr'' empty_page)"
    using c by simp_all
  note hit1 = cache_hits_make_no_call[of cached_page "''Hello world''" "''fr''" net_down,
      THEN conjunct1, rule_format, OF a]
  note hit2 = cache_hits_make_no_call[of persisted_page "''Hello world''" "''fr''" net_down,
      THEN conjunct2, THEN conjunct1, rule_format, OF b]
  note later = cache_hits_make_no_call[of empty_page "''Hello world''" "''fr''" net_bonjour,
      THEN conjunct2, THEN conjunct2, rule_format, OF c, of net_down net_down "[(''Good bye'', ''fr'')]"]
  have "requests (events (snd (getCachedTranslation net_down ''Hello world'' ''fr'' persisted_page))) = []"
    by (simp add: hit2 e)
  moreover have "fst (getCachedTranslation net_down ''Hello world'' ''fr'' persisted_page) = ''Bonjour le monde''"
    by (simp add: hit2)
  moreover have "cache (snd (getCachedTranslation net_down ''Hello world'' ''fr'' persisted_page))
     (cacheKey ''Hello world'' ''fr'') = Some ''Bonjour le monde''"
    by (simp add: hit2)
  ultimately show ?thesis
    using a b' c' hit1 later by blast
qed

text \<open>
  C3, as stated, fails on a persisted empty string: the store holds a value for the pair,
  yet the call goes to the network, returns another value, and copies nothing into the
  memory tier.
\<close>

theorem persisted_empty_string_counterexample:
  "cache stale_page (cacheKey ''Hi'' ''fr'') = None \<and>
   localStorage stale_page (localStorageKey (cacheKey ''Hi'' ''fr'')) = Some [] \<and>
   fst (getCachedTranslation net_down ''Hi'' ''fr'' stale_page) = ''Hi'' \<and>
   requests (events (snd (getCachedTranslation net_down ''Hi'' ''fr'' stale_page))) = [(''Hi'', ''fr'')] \<and>
   cache (snd (getCachedTranslation net_down ''Hi'' ''fr'' stale_page)) (cacheKey ''Hi'' ''fr'') = None"
  by (simp add: stale_page_def empty_page_def cacheKey_def localStorageKey_def net_down_def
      getCachedTranslation_def getCachedTranslation_start_def getCachedTranslation_finish_def
      warn_failed_def)

subsection \<open>A successful request is written through\<close>



subsection \<open>Cache keys\<close>




subsection \<open>What the extraction records\<close>

text \<open>
  C6. The list \<open>skipSelectors\<close> is never consulted: the text of a \<open>style\<close> element is
  recorded like any other, and a translation run then replaces the style sheet.
\<close>

theorem style_text_is_recorded:
  "originalTexts (extractText style_page) =
     [(0, \<lparr>id_index = 0, original = ''p { color: red }'', parentTag = ''style''\<rparr>)] \<and>
   ''style'' \<in> set skipSelectors \<and>
   textContent (translatePage net_bonjour ''fr'' (extractText style_page)) 0 = ''Bonjour le monde''"
  by code_simp

subsection \<open>Batches of eight\<close>



subsection \<open>The no-op of translatePage\<close>

text \<open>
  C8. While a run is in flight, or when the target is the current language,
  \<open>translatePage\<close> changes nothing at all.
\<close>

theorem translatePage_is_a_no_op:
  "isTranslating s \<or> l = currentLang s \<Longrightarrow> translatePage net l s = s"
  by (simp add: translatePage_def)

theorem translatePage_is_a_no_op_witness:
  "isTranslating busy_page \<and> translatePage net_bonjour ''fr'' busy_page = busy_page \<and>
   ''en'' = currentLang hello_page \<and> translatePage net_bonjour ''en'' hello_page = hello_page"
proof -
  have a: "isTranslating busy_page"
    by (simp add: busy_page_def)
  have b: "''en'' = currentLang hello_page"
    by (simp add: hello_page_def empty_page_def)
  show ?thesis
    using a b translatePage_is_a_no_op[of busy_page "''fr''" net_bonjour]
      translatePage_is_a_no_op[of hello_page "''en''" net_bonjour]
    by simp
qed

subsection \<open>The busy flag and the loading indicator\<close>

text \<open>
  C9. A call of \<open>translatePage\<close> that is not a no-op enters the \<open>try\<close> block with the busy
  flag set and the indicator shown, the block ends with both still in place, and the call
  returns with both cleared. \<open>catch\<close> and \<open>finally\<close> turn either outcome of the block into
  a state: after a throw the flag and the indicator are cleared just the same, and the error
  is one more line on the console.
\<close>

theorem translatePage_clears_the_flag:
  assumes "\<not> isTranslating s" and "l \<noteq> currentLang s"
  shows "translatePage net l s =
           translatePage_finally (translatePage_try net l (setLoading True (s\<lparr>isTranslating := True\<rparr>))) \<and>
         isTranslating (setLoading True (s\<lparr>isTranslating := True\<rparr>)) \<and>
         indicator True (setLoading True (s\<lparr>isTranslating := True\<rparr>)) \<and>
         isTranslating (outcome_state (translatePage_try net l (setLoading True (s\<lparr>isTranslating := True\<rparr>)))) \<and>
         indicator True (outcome_state (translatePage_try net l (setLoading True (s\<lparr>isTranslating := True\<rparr>)))) \<and>
         \<not> isTranslating (translatePage net l s) \<and>
         indicator False (translatePage net l s) \<and>
         (\<forall>r. \<not> isTranslating (translatePage_finally r) \<and> indicator False (translatePage_finally r)) \<and>
         (\<forall>e s'. translatePage_finally (Inl (e, s')) =
                   setLoading False (s'\<lparr>isTranslating := False, events := events s' @ [ErrorFailed e]\<rparr>))"
proof -
  let ?s1 = "setLoading True (s\<lparr>isTranslating := True\<rparr>)"
  have run: "translatePage net l s = translatePage_finally (translatePage_try net l ?s1)"
    using assms by (rule translatePage_runs)
  have entry: "isTranslating ?s1 \<and> indicator True ?s1"
    by (cases "loadingDisplay s"; cases "selectDisabled s") (simp_all add: setLoading_def indicator_def)
  have kept: "isTranslating (outcome_state (translatePage_try net l ?s1)) \<and>
      indicator True (outcome_state (translatePage_try net l ?s1))"
    using entry
    by (simp add: translatePage_try_returns outcome_state_def indicator_def
        translateToLanguage_fields restoreOriginal_fields)
  have cleared: "\<not> isTranslating (translatePage_finally r) \<and> indicator False (translatePage_finally r)" for r
    by (cases r; cases "loadingDisplay (outcome_state r)"; cases "selectDisabled (outcome_state r)")
       (auto simp: translatePage_finally_def setLoading_def indicator_def outcome_state_def)
  have thrown: "translatePage_finally (Inl (e, s')) =
      setLoading False (s'\<lparr>isTranslating := False, events := events s' @ [ErrorFailed e]\<rparr>)" for e s'
    by (simp add: translatePage_finally_def setLoading_def)
  show ?thesis
    using run entry kept cleared thrown by (simp only: simp_thms)
qed

theorem translatePage_clears_the_flag_witness:
  "\<not> isTranslating hello_page \<and> ''fr'' \<noteq> currentLang hello_page \<and>
   isTranslating (setLoading True (hello_page\<lparr>isTranslating := True\<rparr>)) \<and>
   indicator True (setLoading True (hello_page\<lparr>isTranslating := True\<rparr>)) \<and>
   loadingDisplay (setLoading True (hello_page\<lparr>isTranslating := True\<rparr>)) = Some ''block'' \<and>
   \<not> isTranslating (translatePage net_bonjour ''fr'' hello_page) \<and>
   indicator False (translatePage net_bonjour ''fr'' hello_page) \<and>
   loadingDisplay (translatePage net_bonjour ''fr'' hello_page) = Some ''none'' \<and>
   selectDisabled (translatePage net_bonjour ''fr'' hello_page) = Some False \<and>
   \<not> isTranslating (translatePage_finally (Inl (TypeError, busy_page))) \<and>
   events (translatePage_finally (Inl (TypeError, busy_page))) = [ErrorFailed TypeError]"
proof -
  have a: "\<not> isTranslating hello_page" and b: "''fr'' \<noteq> currentLang hello_page"
    by (simp_all add: hello_page_def empty_page_def)
  note t = translatePage_clears_the_flag[OF a b, of net_bonjour]
  have c: "loadingDisplay (setLoading True (hello_page\<lparr>isTranslating := True\<rparr>)) = Some ''block''"
    by (simp add: setLoading_def hello_page_def empty_page_def)
  have d: "loadingDisplay (translatePage net_bonjour ''fr'' hello_page) = Some ''none''"
    "selectDisabled (translatePage net_bonjour ''fr'' hello_page) = Some False"
    by code_simp+
  have e: "events (translatePage_finally (Inl (TypeError, busy_page))) = [ErrorFailed TypeError]"
    using t by (simp add: setLoading_def busy_page_def hello_page_def empty_page_def)
  show ?thesis
    using a b c d e t by blast
qed

subsection \<open>A cache write without a write to the node\<close>



end
